theory Spec2Isabelle
  imports Main "HOL-Library.Multiset"
begin

section \<open>Values, errors and the owning context\<close>

text \<open>
  The elements of a set are hashable Python values: integers, strings and (nested)
  tuples of them. On such values the membership tests and insertions of the source
  cannot raise, so the \<^verbatim>\<open>except\<close> clause of \<^verbatim>\<open>add\<close>, which only re-raises a failure of
  hashing as a TypeError, has no instance on this type.
\<close>

datatype pyval = PInt int | PStr string | PTuple "pyval list"

text \<open>
  \<^verbatim>\<open>flatten_tuple\<close> is imported from the library pyutilib. It is modelled as the
  specification describes canonicalization, "flattening any nested tuples into one flat
  tuple": a value that is not a tuple is returned as it is; in a tuple every nested tuple
  is spliced into its place, at every depth.
\<close>

fun flatten_items :: "pyval list \<Rightarrow> pyval list" where
  "flatten_items [] = []"
| "flatten_items (PTuple ys # xs) = flatten_items ys @ flatten_items xs"
| "flatten_items (x # xs) = x # flatten_items xs"

fun flatten_tuple :: "pyval \<Rightarrow> pyval" where
  "flatten_tuple (PTuple xs) = PTuple (flatten_items xs)"
| "flatten_tuple v = v"

text \<open>
  The exceptions of the source. Every IndexError of the source carries one of four
  messages, and Python's own list indexing adds a fifth; the message is kept, since the
  specification tells "not found" from "out of range" by it.
\<close>

datatype index_msg =
    PastLast            \<comment> \<open>"Cannot index a Set past the last element"\<close>
  | BeforeFirst         \<comment> \<open>"Cannot index a Set before the first element"\<close>
  | InvalidIndex        \<comment> \<open>"Valid index values for sets are 1 .. len(set) or -1 .. -len(set)"\<close>
  | ItemNotInSet pyval  \<comment> \<open>"Cannot identify position of ... in Set ...: item not in Set"\<close>
  | ListIndex           \<comment> \<open>Python's "list index out of range"\<close>

datatype error =
    ValueError pyval    \<comment> \<open>"Cannot add value ... The value is not in the Set's domain"\<close>
  | TypeError
  | IndexError index_msg
  | AttributeError
  | ZeroDivisionError

datatype log_msg = AlreadyExists pyval
  \<comment> \<open>the warning "Element ... already exists in set ...; no action taken"\<close>

text \<open>
  A domain is consulted only through its membership test, so a domain is that test;
  \<open>None\<close> is Python's \<^verbatim>\<open>None\<close>.
\<close>

type_synonym domain = "(pyval \<Rightarrow> bool) option"

text \<open>
  Modelled from the spec: the global \<^verbatim>\<open>Any\<close>, which this file uses as the default domain
  and does not define: "a universal accept-everything domain".
\<close>

definition Any :: "pyval \<Rightarrow> bool" where
  "Any = (\<lambda>v. True)"

record FiniteSetData =
  fs_values :: "pyval list"   \<comment> \<open>\<^verbatim>\<open>_values\<close>, a Python set: its elements, each once, in iteration order\<close>
  fs_domain :: domain         \<comment> \<open>\<^verbatim>\<open>_domain\<close>\<close>

record OrderedSetData =
  os_values :: "pyval \<rightharpoonup> nat"        \<comment> \<open>\<^verbatim>\<open>_values\<close>, a dict from element to 0-based position\<close>
  os_ordered_values :: "pyval list"  \<comment> \<open>\<^verbatim>\<open>_ordered_values\<close>\<close>
  os_is_sorted :: "int option"       \<comment> \<open>\<^verbatim>\<open>_is_sorted\<close>\<close>
  os_domain :: domain                \<comment> \<open>\<^verbatim>\<open>_domain\<close>\<close>

text \<open>
  What the file takes from elsewhere: the methods of \<^verbatim>\<open>_InfiniteRange\<close> (membership,
  \<^verbatim>\<open>isdisjoint\<close>, \<^verbatim>\<open>issubset\<close>, \<^verbatim>\<open>==\<close>), and, for an ordered set, the decision
  \<^verbatim>\<open>parent_component().ordering(self)\<close> of the owning component and the function
  \<^verbatim>\<open>sorted_robust\<close>. They are parameters of the model.
\<close>

record 'r range_ops =
  range_contains :: "'r \<Rightarrow> pyval \<Rightarrow> bool"
  range_isdisjoint :: "'r \<Rightarrow> 'r \<Rightarrow> bool"
  range_issubset :: "'r \<Rightarrow> 'r \<Rightarrow> bool"
  range_eq :: "'r \<Rightarrow> 'r \<Rightarrow> bool"

record owner =
  ordering :: "OrderedSetData \<Rightarrow> int option"
  sorted_robust :: "pyval list \<Rightarrow> pyval list"

section \<open>The ordered set's order state\<close>

definition InsertionOrder :: int where "InsertionOrder = 1"
definition Sorted :: int where "Sorted = 2"
definition SortNeeded :: int where "SortNeeded = 3"

definition DataOK :: "int option set" where
  "DataOK = {Some InsertionOrder, Some Sorted}"

text \<open>\<^verbatim>\<open>dict((j, i) for i, j in enumerate(xs))\<close>: a later pair overwrites an earlier one.\<close>

definition dict_of_enumerate :: "pyval list \<Rightarrow> (pyval \<rightharpoonup> nat)" where
  "dict_of_enumerate xs = fold (\<lambda>(i, j) m. m(j \<mapsto> i)) (enumerate 0 xs) Map.empty"

definition do_sort :: "owner \<Rightarrow> OrderedSetData \<Rightarrow> OrderedSetData" where
  "do_sort own s =
     (let s1 = (if os_is_sorted s = None then s\<lparr>os_is_sorted := ordering own s\<rparr> else s)
      in if os_is_sorted s1 = Some SortNeeded
         then (let ys = sorted_robust own (os_ordered_values s1)
               in s1\<lparr>os_ordered_values := ys, os_values := dict_of_enumerate ys,
                     os_is_sorted := Some Sorted\<rparr>)
         else s1)"

text \<open>The guard \<^verbatim>\<open>if self._is_sorted not in self._DataOK: self._sort()\<close> of every accessor.\<close>

definition sync :: "owner \<Rightarrow> OrderedSetData \<Rightarrow> OrderedSetData" where
  "sync own s = (if os_is_sorted s \<notin> DataOK then do_sort own s else s)"

section \<open>Sets and the generic methods of \<^verbatim>\<open>_SetData\<close>\<close>

datatype 'r SetData =
    InfiniteSet "'r list"        \<comment> \<open>\<^verbatim>\<open>_InfiniteSet\<close>, with its \<^verbatim>\<open>_ranges\<close>\<close>
  | FiniteSet FiniteSetData      \<comment> \<open>\<^verbatim>\<open>_FiniteSetData\<close>\<close>
  | OrderedSet OrderedSetData    \<comment> \<open>\<^verbatim>\<open>_OrderedSetData\<close>\<close>

text \<open>
  \<^verbatim>\<open>is_finite\<close> is defined twice: \<^verbatim>\<open>_SetData.is_finite\<close> returns \<^verbatim>\<open>False\<close>, and
  \<^verbatim>\<open>_FiniteSetMixin.is_finite\<close> returns \<^verbatim>\<open>True\<close> ("Return True if this is a finite discrete
  (iterable) Set"). The class headers are \<^verbatim>\<open>_FiniteSetData(_SetData, _FiniteSetMixin)\<close> and
  \<^verbatim>\<open>_OrderedSetData(_FiniteSetData, _OrderedSetMixin)\<close>, so in the method resolution order
  of both classes \<^verbatim>\<open>_SetData\<close> stands before the mixins: a call of \<^verbatim>\<open>is_finite()\<close> on an
  instance of either class runs \<^verbatim>\<open>_SetData.is_finite\<close>, and the mixin's method is never
  reached.
\<close>

fun is_finite :: "'r SetData \<Rightarrow> bool" where
  "is_finite (InfiniteSet rs) = False"   \<comment> \<open>\<^verbatim>\<open>_SetData.is_finite\<close>, inherited\<close>
| "is_finite (FiniteSet d) = False"      \<comment> \<open>\<^verbatim>\<open>_SetData.is_finite\<close>, first in the resolution order\<close>
| "is_finite (OrderedSet d) = False"     \<comment> \<open>\<^verbatim>\<open>_SetData.is_finite\<close>, first in the resolution order\<close>

text \<open>\<^verbatim>\<open>_InfiniteSet.__contains__\<close>: the first range that holds the value answers.\<close>

fun any_range_contains :: "'r range_ops \<Rightarrow> 'r list \<Rightarrow> pyval \<Rightarrow> bool" where
  "any_range_contains ops [] v = False"
| "any_range_contains ops (r # rs) v =
     (if range_contains ops r v then True else any_range_contains ops rs v)"

fun contains :: "'r range_ops \<Rightarrow> 'r SetData \<Rightarrow> pyval \<Rightarrow> bool" where
  "contains ops (InfiniteSet rs) v = any_range_contains ops rs v"
| "contains ops (FiniteSet d) v = (v \<in> set (fs_values d))"
| "contains ops (OrderedSet d) v = (v \<in> dom (os_values d))"

text \<open>
  \<^verbatim>\<open>__len__\<close>: \<^verbatim>\<open>_SetData\<close> returns \<^verbatim>\<open>None\<close> and \<^verbatim>\<open>_InfiniteSet\<close> inherits it;
  \<^verbatim>\<open>_FiniteSetData\<close> returns \<^verbatim>\<open>len(self._values)\<close>, of a set or, in an ordered set, of
  a dict. The method raises nowhere.
\<close>

fun dunder_len :: "'r SetData \<Rightarrow> error + nat option" where
  "dunder_len (InfiniteSet rs) = Inr None"
| "dunder_len (FiniteSet d) = Inr (Some (length (fs_values d)))"
| "dunder_len (OrderedSet d) = Inr (Some (card (dom (os_values d))))"

text \<open>Python's built-in \<^verbatim>\<open>len\<close> calls \<^verbatim>\<open>__len__\<close> and rejects a result that is no integer.\<close>

definition builtin_len :: "'r SetData \<Rightarrow> error + nat" where
  "builtin_len s =
     (case dunder_len s of
        Inl e \<Rightarrow> Inl e
      | Inr None \<Rightarrow> Inl TypeError
      | Inr (Some n) \<Rightarrow> Inr n)"

text \<open>
  Iteration. An \<^verbatim>\<open>_InfiniteSet\<close> has no \<^verbatim>\<open>__iter__\<close>; an ordered set is brought into
  order first and then yields \<^verbatim>\<open>_ordered_values\<close>. The methods below return a value and
  read an ordered operand only through this sequence and through the keys of its dict.
\<close>

fun dunder_iter :: "owner \<Rightarrow> 'r SetData \<Rightarrow> error + pyval list" where
  "dunder_iter own (InfiniteSet rs) = Inl TypeError"
| "dunder_iter own (FiniteSet d) = Inr (fs_values d)"
| "dunder_iter own (OrderedSet d) = Inr (os_ordered_values (sync own d))"

fun ranges :: "'r SetData \<Rightarrow> error + 'r list" where
  "ranges (InfiniteSet rs) = Inr rs"
| "ranges (FiniteSet d) = Inl AttributeError"
| "ranges (OrderedSet d) = Inl AttributeError"

text \<open>
  \<^verbatim>\<open>for x in xs: if x not in other: return False\<close>, then \<^verbatim>\<open>return True\<close>. The order in
  which a Python set yields its elements is the implementation's; the loops over a set
  return the same for every order (\<open>all_in_iff\<close> and \<open>none_in_iff\<close> below).
\<close>

fun all_in :: "'r range_ops \<Rightarrow> 'r SetData \<Rightarrow> pyval list \<Rightarrow> bool" where
  "all_in ops other [] = True"
| "all_in ops other (x # xs) =
     (if \<not> contains ops other x then False else all_in ops other xs)"

text \<open>\<^verbatim>\<open>for x in xs: if x in other: return False\<close>, then \<^verbatim>\<open>return True\<close>.\<close>

fun none_in :: "'r range_ops \<Rightarrow> 'r SetData \<Rightarrow> pyval list \<Rightarrow> bool" where
  "none_in ops other [] = True"
| "none_in ops other (x # xs) =
     (if contains ops other x then False else none_in ops other xs)"

text \<open>
  Equality of two tuples of ranges, as Python compares tuples: the same length and, at
  every position, the same object or \<^verbatim>\<open>==\<close>.
\<close>

fun tuple_eq :: "'r range_ops \<Rightarrow> 'r list \<Rightarrow> 'r list \<Rightarrow> bool" where
  "tuple_eq ops [] [] = True"
| "tuple_eq ops (r # rs) (s # ss) = ((r = s \<or> range_eq ops r s) \<and> tuple_eq ops rs ss)"
| "tuple_eq ops rs ss = False"

text \<open>
  \<^verbatim>\<open>__eq__\<close>, \<^verbatim>\<open>isdisjoint\<close> and \<^verbatim>\<open>issubset\<close> are modelled for another operand that is a
  set (an instance of \<^verbatim>\<open>_SetData\<close>), so \<^verbatim>\<open>other_is_finite\<close> is \<^verbatim>\<open>other.is_finite()\<close>. In
  \<^verbatim>\<open>__eq__\<close> the test \<^verbatim>\<open>self is other\<close> is the equality of the two values.
\<close>

definition dunder_eq :: "'r range_ops \<Rightarrow> owner \<Rightarrow> 'r SetData \<Rightarrow> 'r SetData \<Rightarrow> error + bool" where
  "dunder_eq ops own self other =
     (if self = other then Inr True
      else let other_is_finite = is_finite other in
        if is_finite self then
          (if \<not> other_is_finite then Inr False
           else case builtin_len self of Inl e \<Rightarrow> Inl e | Inr n \<Rightarrow>
             (case builtin_len other of Inl e \<Rightarrow> Inl e | Inr m \<Rightarrow>
               if n \<noteq> m then Inr False
               else (case dunder_iter own self of Inl e \<Rightarrow> Inl e
                     | Inr xs \<Rightarrow> Inr (all_in ops other xs))))
        else if other_is_finite then Inr False
        else case ranges self of Inl e \<Rightarrow> Inl e | Inr rs \<Rightarrow>
          (case ranges other of Inl e \<Rightarrow> Inl e | Inr ss \<Rightarrow> Inr (tuple_eq ops rs ss)))"

text \<open>
  \<^verbatim>\<open>isdisjoint\<close>. A Python function that ends without \<^verbatim>\<open>return\<close> returns \<^verbatim>\<open>None\<close>: the
  result is \<open>Some b\<close> for a boolean and \<open>None\<close> for \<^verbatim>\<open>None\<close>. The last branch evaluates
  \<^verbatim>\<open>all(r.isdisjoint(s) for r in self.ranges() for s in other.ranges())\<close> and drops it.
\<close>

definition all_disjoint :: "'r range_ops \<Rightarrow> 'r list \<Rightarrow> 'r list \<Rightarrow> bool" where
  "all_disjoint ops rs ss = list_all (\<lambda>r. list_all (\<lambda>s. range_isdisjoint ops r s) ss) rs"

definition isdisjoint ::
  "'r range_ops \<Rightarrow> owner \<Rightarrow> 'r SetData \<Rightarrow> 'r SetData \<Rightarrow> error + bool option" where
  "isdisjoint ops own self other =
     (let other_is_finite = is_finite other in
      if is_finite self then
        (case dunder_iter own self of Inl e \<Rightarrow> Inl e
         | Inr xs \<Rightarrow> Inr (Some (none_in ops other xs)))
      else if other_is_finite then
        (case dunder_iter own other of Inl e \<Rightarrow> Inl e
         | Inr xs \<Rightarrow> Inr (Some (none_in ops self xs)))
      else case ranges self of Inl e \<Rightarrow> Inl e | Inr rs \<Rightarrow>
        (case ranges other of Inl e \<Rightarrow> Inl e
         | Inr ss \<Rightarrow> (let unused = all_disjoint ops rs ss in Inr None)))"

text \<open>
  \<^verbatim>\<open>issubset\<close>; its last branch is
  \<^verbatim>\<open>for r in self.ranges(): if not any(r.issubset(s) for s in other.ranges()): return False\<close>.
\<close>

fun ranges_covered :: "'r range_ops \<Rightarrow> 'r list \<Rightarrow> 'r list \<Rightarrow> bool" where
  "ranges_covered ops [] ss = True"
| "ranges_covered ops (r # rs) ss =
     (if \<not> list_ex (\<lambda>s. range_issubset ops r s) ss then False
      else ranges_covered ops rs ss)"

definition issubset :: "'r range_ops \<Rightarrow> owner \<Rightarrow> 'r SetData \<Rightarrow> 'r SetData \<Rightarrow> error + bool" where
  "issubset ops own self other =
     (let other_is_finite = is_finite other in
      if is_finite self then
        (case dunder_iter own self of Inl e \<Rightarrow> Inl e
         | Inr xs \<Rightarrow> Inr (all_in ops other xs))
      else if other_is_finite then Inr False
      else case ranges self of Inl e \<Rightarrow> Inl e | Inr rs \<Rightarrow>
        (case ranges other of Inl e \<Rightarrow> Inl e
         | Inr ss \<Rightarrow> Inr (ranges_covered ops rs ss)))"

section \<open>Composed sets\<close>

text \<open>
  Modelled from the spec: the class \<^verbatim>\<open>_SetUnion\<close>, which \<^verbatim>\<open>union\<close> instantiates and this
  file does not define. A composed set "holds exactly two parent references", and its
  finiteness "is a pure function of parent finiteness": the \<^verbatim>\<open>is_finite()\<close> of a Union is
  true iff the \<^verbatim>\<open>is_finite()\<close> of its left and of its right operand are.
\<close>

datatype 'r ComposedSet =
    Base "'r SetData"
  | SetUnion "'r ComposedSet" "'r ComposedSet"

fun composed_is_finite :: "'r ComposedSet \<Rightarrow> bool" where
  "composed_is_finite (Base s) = is_finite s"
| "composed_is_finite (SetUnion l r) = (composed_is_finite l \<and> composed_is_finite r)"

text \<open>\<^verbatim>\<open>union(self, *args)\<close>: \<^verbatim>\<open>tmp = self\<close>, then \<^verbatim>\<open>tmp = _SetUnion(tmp, arg)\<close> for each operand.\<close>

fun set_union :: "'r ComposedSet \<Rightarrow> 'r ComposedSet list \<Rightarrow> 'r ComposedSet" where
  "set_union tmp [] = tmp"
| "set_union tmp (arg # args) = set_union (SetUnion tmp arg) args"

section \<open>Insertion\<close>

definition domain_rejects :: "domain \<Rightarrow> pyval \<Rightarrow> bool" where
  \<comment> \<open>\<^verbatim>\<open>self._domain is not None and value not in self._domain\<close>\<close>
  "domain_rejects d v = (case d of None \<Rightarrow> False | Some c \<Rightarrow> \<not> c v)"

definition py_set_add :: "pyval \<Rightarrow> pyval list \<Rightarrow> pyval list" where
  \<comment> \<open>\<^verbatim>\<open>set.add\<close>: an element already there is not added again\<close>
  "py_set_add v xs = (if v \<in> set xs then xs else xs @ [v])"

text \<open>
  \<^verbatim>\<open>__init__\<close> and \<^verbatim>\<open>add\<close>. \<^verbatim>\<open>add\<close> returns nothing; the model returns the outcome (an
  exception or \<^verbatim>\<open>None\<close>), the state of the set after the call, and the warnings logged.
\<close>

definition FiniteSetData_init :: "domain \<Rightarrow> FiniteSetData" where
  "FiniteSetData_init d =
     \<lparr>fs_values = [], fs_domain = (case d of None \<Rightarrow> Some Any | Some c \<Rightarrow> Some c)\<rparr>"

definition fs_add ::
  "FiniteSetData \<Rightarrow> pyval \<Rightarrow> (error + unit) \<times> FiniteSetData \<times> log_msg list" where
  "fs_add s v =
     (if domain_rejects (fs_domain s) v then (Inl (ValueError v), s, [])
      else let v' = flatten_tuple v;
               logged = (if v' \<in> set (fs_values s) then [AlreadyExists v'] else [])
           in (Inr (), s\<lparr>fs_values := py_set_add v' (fs_values s)\<rparr>, logged))"

definition OrderedSetData_init :: OrderedSetData where
  "OrderedSetData_init =
     \<lparr>os_values = Map.empty, os_ordered_values = [], os_is_sorted = None,
      os_domain = Some Any\<rparr>"

definition os_add ::
  "OrderedSetData \<Rightarrow> pyval \<Rightarrow> (error + unit) \<times> OrderedSetData \<times> log_msg list" where
  "os_add s v =
     (if domain_rejects (os_domain s) v then (Inl (ValueError v), s, [])
      else let v' = flatten_tuple v in
        if v' \<in> dom (os_values s) then (Inr (), s, [AlreadyExists v'])
        else (Inr (),
              s\<lparr>os_values := (os_values s)(v' \<mapsto> card (dom (os_values s))),
                os_ordered_values := os_ordered_values s @ [v'],
                os_is_sorted := (if os_is_sorted s = Some Sorted then Some SortNeeded
                                 else os_is_sorted s)\<rparr>,
              []))"

section \<open>Positional access to an ordered set\<close>

text \<open>Python's indexing of a list: a negative index counts from the end.\<close>

definition list_getitem :: "pyval list \<Rightarrow> int \<Rightarrow> error + pyval" where
  "list_getitem xs i =
     (if 0 \<le> i \<and> i < int (length xs) then Inr (xs ! nat i)
      else if i < 0 \<and> - int (length xs) \<le> i then Inr (xs ! nat (int (length xs) + i))
      else Inl (IndexError ListIndex))"

text \<open>Python's \<^verbatim>\<open>%\<close> on integers: the result has the sign of the divisor.\<close>

definition py_mod :: "int \<Rightarrow> int \<Rightarrow> error + int" where
  "py_mod a b = (if b = 0 then Inl ZeroDivisionError else Inr (a mod b))"

text \<open>\<^verbatim>\<open>len(self)\<close> of an ordered set: the number of keys of the dict.\<close>

definition os_len :: "OrderedSetData \<Rightarrow> int" where
  "os_len s = int (card (dom (os_values s)))"

text \<open>
  The accessors bring the set into order first, so each returns the state it leaves
  besides its outcome.
\<close>

definition dunder_getitem ::
  "owner \<Rightarrow> OrderedSetData \<Rightarrow> int \<Rightarrow> (error + pyval) \<times> OrderedSetData" where
  "dunder_getitem own s item =
     (let s1 = sync own s in
      if item \<ge> 1 then
        (if item > os_len s1 then (Inl (IndexError PastLast), s1)
         else (list_getitem (os_ordered_values s1) (item - 1), s1))
      else if item < 0 then
        (if os_len s1 + item < 0 then (Inl (IndexError BeforeFirst), s1)
         else (list_getitem (os_ordered_values s1) item, s1))
      else (Inl (IndexError InvalidIndex), s1))"

definition ord :: "owner \<Rightarrow> OrderedSetData \<Rightarrow> pyval \<Rightarrow> (error + int) \<times> OrderedSetData" where
  "ord own s item =
     (let s1 = sync own s in
      case os_values s1 item of
        None \<Rightarrow> (Inl (IndexError (ItemNotInSet item)), s1)
      | Some k \<Rightarrow> (Inr (int k + 1), s1))"

definition first :: "owner \<Rightarrow> OrderedSetData \<Rightarrow> (error + pyval) \<times> OrderedSetData" where
  "first own s = dunder_getitem own s 1"

definition last_item :: "owner \<Rightarrow> OrderedSetData \<Rightarrow> (error + pyval) \<times> OrderedSetData" where
  "last_item own s = dunder_getitem own s (os_len s)"

definition next_item ::
  "owner \<Rightarrow> OrderedSetData \<Rightarrow> pyval \<Rightarrow> int \<Rightarrow> (error + pyval) \<times> OrderedSetData" where
  "next_item own s item step =
     (case ord own s item of
        (Inl e, s1) \<Rightarrow> (Inl e, s1)
      | (Inr position, s1) \<Rightarrow> dunder_getitem own s1 (position + step))"

definition nextw ::
  "owner \<Rightarrow> OrderedSetData \<Rightarrow> pyval \<Rightarrow> int \<Rightarrow> (error + pyval) \<times> OrderedSetData" where
  "nextw own s item step =
     (case ord own s item of
        (Inl e, s1) \<Rightarrow> (Inl e, s1)
      | (Inr position, s1) \<Rightarrow>
          (case py_mod (position + step - 1) (os_len s1) of
             Inl e \<Rightarrow> (Inl e, s1)
           | Inr m \<Rightarrow> dunder_getitem own s1 (m + 1)))"

definition prev_item ::
  "owner \<Rightarrow> OrderedSetData \<Rightarrow> pyval \<Rightarrow> int \<Rightarrow> (error + pyval) \<times> OrderedSetData" where
  "prev_item own s item step = next_item own s item (- step)"

definition prevw ::
  "owner \<Rightarrow> OrderedSetData \<Rightarrow> pyval \<Rightarrow> int \<Rightarrow> (error + pyval) \<times> OrderedSetData" where
  "prevw own s item step = nextw own s item (- step)"

section \<open>Well-formed ordered sets and concrete instances\<close>

text \<open>
  The invariant of an ordered set: no element twice in the sequence, and the dict maps
  each element to its position. The owning context is taken to sort by reordering.
\<close>

definition wf_ordered :: "OrderedSetData \<Rightarrow> bool" where
  "wf_ordered s =
     (distinct (os_ordered_values s) \<and> os_values s = dict_of_enumerate (os_ordered_values s))"

definition reorders :: "owner \<Rightarrow> bool" where
  "reorders own = (\<forall>xs. mset (sorted_robust own xs) = mset xs)"

text \<open>
  Instances on which the model is evaluated: ranges that are integer intervals with
  optional bounds, and an owner that keeps insertion order and sorts integers by value.
\<close>

type_synonym interval = "int option \<times> int option"

definition above :: "int option \<Rightarrow> int \<Rightarrow> bool" where
  "above lo i = (case lo of None \<Rightarrow> True | Some l \<Rightarrow> l \<le> i)"

definition below :: "int option \<Rightarrow> int \<Rightarrow> bool" where
  "below hi i = (case hi of None \<Rightarrow> True | Some h \<Rightarrow> i \<le> h)"

definition interval_contains :: "interval \<Rightarrow> pyval \<Rightarrow> bool" where
  "interval_contains r v =
     (case v of PInt i \<Rightarrow> above (fst r) i \<and> below (snd r) i | _ \<Rightarrow> False)"

definition interval_isdisjoint :: "interval \<Rightarrow> interval \<Rightarrow> bool" where
  "interval_isdisjoint r s =
     ((case (snd r, fst s) of (Some h, Some l) \<Rightarrow> h < l | _ \<Rightarrow> False) \<or>
      (case (snd s, fst r) of (Some h, Some l) \<Rightarrow> h < l | _ \<Rightarrow> False))"

definition interval_issubset :: "interval \<Rightarrow> interval \<Rightarrow> bool" where
  "interval_issubset r s =
     ((case fst s of None \<Rightarrow> True | Some l \<Rightarrow> (case fst r of None \<Rightarrow> False | Some l' \<Rightarrow> l \<le> l')) \<and>
      (case snd s of None \<Rightarrow> True | Some h \<Rightarrow> (case snd r of None \<Rightarrow> False | Some h' \<Rightarrow> h' \<le> h)))"

definition interval_ops :: "interval range_ops" where
  "interval_ops =
     \<lparr>range_contains = interval_contains, range_isdisjoint = interval_isdisjoint,
      range_issubset = interval_issubset, range_eq = (=)\<rparr>"

definition int_key :: "pyval \<Rightarrow> int" where
  "int_key v = (case v of PInt i \<Rightarrow> i | _ \<Rightarrow> 0)"

definition insertion_owner :: owner where
  "insertion_owner = \<lparr>ordering = (\<lambda>s. Some InsertionOrder), sorted_robust = sort_key int_key\<rparr>"

definition abc :: OrderedSetData where
  "abc = \<lparr>os_values = [PStr ''a'' \<mapsto> 0, PStr ''b'' \<mapsto> 1, PStr ''c'' \<mapsto> 2],
          os_ordered_values = [PStr ''a'', PStr ''b'', PStr ''c''],
          os_is_sorted = None, os_domain = Some Any\<rparr>"

text \<open>The element at the 1-based position \<open>q\<close> of the set brought into order.\<close>

definition element_at :: "owner \<Rightarrow> OrderedSetData \<Rightarrow> int \<Rightarrow> pyval" where
  "element_at own s q = os_ordered_values (sync own s) ! nat (q - 1)"

text \<open>
  A finite set whose domain is the membership test of a set holding the flat tuple
  \<^verbatim>\<open>(1, 2, 3)\<close> only, and the nested tuple \<^verbatim>\<open>(1, (2, 3))\<close>, which flattens to it.
\<close>

definition flat_triple :: pyval where
  "flat_triple = PTuple [PInt 1, PInt 2, PInt 3]"

definition nested_triple :: pyval where
  "nested_triple = PTuple [PInt 1, PTuple [PInt 2, PInt 3]]"

definition restricted :: FiniteSetData where
  "restricted = \<lparr>fs_values = [flat_triple], fs_domain = Some (\<lambda>v. v \<in> set [flat_triple])\<rparr>"

section \<open>Loops and invariants\<close>

lemma all_in_iff: "all_in ops other xs = (\<forall>x\<in>set xs. contains ops other x)"
  by (induction xs) auto

lemma none_in_iff: "none_in ops other xs = (\<forall>x\<in>set xs. \<not> contains ops other x)"
  by (induction xs) auto

lemma any_range_contains_iff:
  "any_range_contains ops rs v = (\<exists>r\<in>set rs. range_contains ops r v)"
  by (induction rs) auto

lemma tuple_eq_list_all2:
  "tuple_eq ops rs ss = list_all2 (\<lambda>r s. r = s \<or> range_eq ops r s) rs ss"
  by (induction ops rs ss rule: tuple_eq.induct) auto

lemma tuple_eq_refl: "tuple_eq ops rs rs"
  by (induction rs) auto

lemma is_finite_resolution: "is_finite s = False"
  by (cases s) simp_all

lemma composed_is_finite_False: "composed_is_finite c = False"
  by (induction c) (simp_all add: is_finite_resolution)

lemma set_union_foldl: "set_union A Bs = foldl SetUnion A Bs"
  by (induction Bs arbitrary: A) auto

lemma set_union_finite:
  "composed_is_finite (set_union A Bs) = (composed_is_finite A \<and> list_all composed_is_finite Bs)"
  by (induction Bs arbitrary: A) auto

lemma dict_of_enumerate_snoc:
  "dict_of_enumerate (xs @ [x]) = (dict_of_enumerate xs)(x \<mapsto> length xs)"
  by (simp add: dict_of_enumerate_def enumerate_append_eq)

lemma dict_of_enumerate_Nil: "dict_of_enumerate [] = Map.empty"
  by (simp add: dict_of_enumerate_def)

lemma dom_dict_of_enumerate: "dom (dict_of_enumerate xs) = set xs"
proof (induction xs rule: rev_induct)
  case Nil
  show ?case by (simp add: dict_of_enumerate_Nil)
next
  case (snoc x xs)
  have "dom (dict_of_enumerate (xs @ [x])) = dom ((dict_of_enumerate xs)(x \<mapsto> length xs))"
    by (simp only: dict_of_enumerate_snoc)
  also have "\<dots> = insert x (dom (dict_of_enumerate xs))"
    by (simp only: dom_fun_upd option.simps if_False)
  finally show ?case
    using snoc.IH by simp
qed

lemma dict_of_enumerate_lookup:
  "distinct xs \<Longrightarrow> (dict_of_enumerate xs v = Some k) = (k < length xs \<and> xs ! k = v)"
proof (induction xs rule: rev_induct)
  case Nil
  then show ?case by (simp add: dict_of_enumerate_Nil)
next
  case (snoc x xs)
  then have d: "distinct xs" and nx: "x \<notin> set xs" by simp_all
  show ?case
  proof (cases "v = x")
    case True
    have "k < length xs \<Longrightarrow> xs ! k \<noteq> x" using nx nth_mem by metis
    then show ?thesis
      using True by (auto simp add: dict_of_enumerate_snoc nth_append less_Suc_eq)
  next
    case False
    then show ?thesis
      using snoc.IH [OF d]
      by (auto simp add: dict_of_enumerate_snoc nth_append less_Suc_eq)
  qed
qed

lemma wf_ordered_len:
  "wf_ordered s \<Longrightarrow> os_len s = int (length (os_ordered_values s))"
  by (simp add: wf_ordered_def os_len_def dom_dict_of_enumerate distinct_card)

lemma reorders_distinct:
  "reorders own \<Longrightarrow> distinct (sorted_robust own xs) = distinct xs"
  by (metis reorders_def mset_eq_imp_distinct_iff)

lemma reorders_length:
  "reorders own \<Longrightarrow> length (sorted_robust own xs) = length xs"
  by (metis reorders_def size_mset)

lemma reorders_set:
  "reorders own \<Longrightarrow> set (sorted_robust own xs) = set xs"
  by (metis reorders_def set_mset_mset)

lemma wf_ordered_do_sort:
  "wf_ordered s \<Longrightarrow> reorders own \<Longrightarrow> wf_ordered (do_sort own s)"
  by (simp add: wf_ordered_def do_sort_def Let_def reorders_distinct)

lemma wf_ordered_sync:
  "wf_ordered s \<Longrightarrow> reorders own \<Longrightarrow> wf_ordered (sync own s)"
  by (simp add: sync_def wf_ordered_do_sort)

lemma sync_length:
  "reorders own \<Longrightarrow> length (os_ordered_values (sync own s)) = length (os_ordered_values s)"
  by (simp add: sync_def do_sort_def Let_def reorders_length)

lemma sync_set:
  "reorders own \<Longrightarrow> set (os_ordered_values (sync own s)) = set (os_ordered_values s)"
  by (simp add: sync_def do_sort_def Let_def reorders_set)

lemma sync_domain: "os_domain (sync own s) = os_domain s"
  by (simp add: sync_def do_sort_def Let_def)

lemma sync_idem: "sync own (sync own s) = sync own s"
proof (cases "os_is_sorted s")
  case None
  then have same: "s\<lparr>os_is_sorted := None\<rparr> = s" by simp
  from None show ?thesis
    by (cases "ordering own s")
       (auto simp add: same sync_def do_sort_def Let_def DataOK_def Sorted_def SortNeeded_def
          InsertionOrder_def)
next
  case (Some a)
  then show ?thesis
    by (auto simp add: sync_def do_sort_def Let_def DataOK_def Sorted_def SortNeeded_def
          InsertionOrder_def)
qed

lemma wf_ordered_init: "wf_ordered OrderedSetData_init"
  by (simp add: wf_ordered_def OrderedSetData_init_def dict_of_enumerate_Nil)

lemma wf_ordered_add:
  assumes "wf_ordered s"
  shows "wf_ordered (fst (snd (os_add s v)))"
proof -
  have len: "card (dom (os_values s)) = length (os_ordered_values s)"
    using assms by (simp add: wf_ordered_def dom_dict_of_enumerate distinct_card)
  have dom: "dom (os_values s) = set (os_ordered_values s)"
    using assms by (simp add: wf_ordered_def dom_dict_of_enumerate)
  show ?thesis
    using assms len dom
    by (auto simp add: os_add_def Let_def wf_ordered_def dict_of_enumerate_snoc)
qed

lemma sync_len:
  assumes "wf_ordered s" and "reorders own"
  shows "os_len (sync own s) = os_len s"
  using assms wf_ordered_len [OF wf_ordered_sync [OF assms]] wf_ordered_len [OF assms(1)]
  by (simp add: sync_length)

lemma len_resolved:
  assumes "wf_ordered s" and "reorders own"
  shows "os_len s = int (length (os_ordered_values (sync own s)))"
  using assms wf_ordered_len [OF assms(1)] by (simp add: sync_length)

lemma getitem_sync: "dunder_getitem own (sync own s) i = dunder_getitem own s i"
  by (simp add: dunder_getitem_def sync_idem)

lemma getitem_wf:
  assumes "wf_ordered s" and "reorders own"
  shows "dunder_getitem own s i =
           (if 1 \<le> i then
              (if os_len s < i then Inl (IndexError PastLast) else Inr (element_at own s i))
            else if i < 0 then
              (if i < - os_len s then Inl (IndexError BeforeFirst)
               else Inr (rev (os_ordered_values (sync own s)) ! nat (- i - 1)))
            else Inl (IndexError InvalidIndex),
            sync own s)"
proof -
  let ?xs = "os_ordered_values (sync own s)"
  have n: "os_len (sync own s) = int (length ?xs)"
    using sync_len [OF assms] len_resolved [OF assms] by simp
  have m: "os_len s = int (length ?xs)" by (rule len_resolved [OF assms])
  have r: "i < 0 \<Longrightarrow> - int (length ?xs) \<le> i \<Longrightarrow>
             rev ?xs ! nat (- i - 1) = ?xs ! nat (int (length ?xs) + i)"
  proof -
    assume a: "i < 0" and b: "- int (length ?xs) \<le> i"
    then have "nat (- i - 1) < length ?xs" by linarith
    then have "rev ?xs ! nat (- i - 1) = ?xs ! (length ?xs - Suc (nat (- i - 1)))"
      by (rule rev_nth)
    moreover have "length ?xs - Suc (nat (- i - 1)) = nat (int (length ?xs) + i)"
      using a b by linarith
    ultimately show ?thesis by simp
  qed
  show ?thesis
    using r by (auto simp add: dunder_getitem_def Let_def n m list_getitem_def element_at_def)
qed

lemma ord_wf:
  assumes "wf_ordered s" and "reorders own"
  shows "(ord own s item = (Inr p, s1)) =
           (s1 = sync own s \<and> 1 \<le> p \<and> p \<le> os_len s \<and> element_at own s p = item)"
proof -
  let ?xs = "os_ordered_values (sync own s)"
  have wf: "wf_ordered (sync own s)" by (rule wf_ordered_sync [OF assms])
  then have d: "distinct ?xs" and v: "os_values (sync own s) = dict_of_enumerate ?xs"
    by (simp_all add: wf_ordered_def)
  have m: "os_len s = int (length ?xs)" by (rule len_resolved [OF assms])
  have look: "(os_values (sync own s) item = Some k) = (k < length ?xs \<and> ?xs ! k = item)" for k
    using dict_of_enumerate_lookup [OF d, of item k] by (simp only: v)
  have inside: "nat (p - 1) < length ?xs" if "1 \<le> p" "p \<le> os_len s"
    using that m by linarith
  show ?thesis
  proof (cases "os_values (sync own s) item")
    case None
    have "\<not> (1 \<le> p \<and> p \<le> os_len s \<and> element_at own s p = item)"
    proof
      assume a: "1 \<le> p \<and> p \<le> os_len s \<and> element_at own s p = item"
      then have "nat (p - 1) < length ?xs \<and> ?xs ! nat (p - 1) = item"
        using inside by (simp add: element_at_def)
      then have "os_values (sync own s) item = Some (nat (p - 1))"
        by (simp only: look)
      then show False using None by simp
    qed
    moreover have "ord own s item \<noteq> (Inr p, s1)"
      using None by (simp add: ord_def Let_def)
    ultimately show ?thesis by blast
  next
    case (Some k)
    have lhs: "(ord own s item = (Inr p, s1)) = (p = int k + 1 \<and> s1 = sync own s)"
      using Some by (auto simp add: ord_def Let_def)
    have k: "k < length ?xs \<and> ?xs ! k = item"
      using Some by (simp only: look)
    have rhs: "(1 \<le> p \<and> p \<le> os_len s \<and> element_at own s p = item) = (p = int k + 1)"
    proof
      assume a: "1 \<le> p \<and> p \<le> os_len s \<and> element_at own s p = item"
      then have "nat (p - 1) < length ?xs \<and> ?xs ! nat (p - 1) = item"
        using inside by (simp add: element_at_def)
      then have "os_values (sync own s) item = Some (nat (p - 1))"
        by (simp only: look)
      then have "nat (p - 1) = k" using Some by simp
      then show "p = int k + 1" using a by linarith
    next
      assume b: "p = int k + 1"
      then have "nat (p - 1) = k" by simp
      then have "element_at own s p = item" using k by (simp add: element_at_def)
      moreover have "1 \<le> p \<and> p \<le> os_len s" using b k m by linarith
      ultimately show "1 \<le> p \<and> p \<le> os_len s \<and> element_at own s p = item" by simp
    qed
    show ?thesis unfolding lhs using rhs by blast
  qed
qed

lemma ord_absent:
  assumes "wf_ordered s" and "reorders own" and "item \<notin> dom (os_values s)"
  shows "ord own s item = (Inl (IndexError (ItemNotInSet item)), sync own s)"
proof -
  have "dom (os_values (sync own s)) = set (os_ordered_values (sync own s))"
    using wf_ordered_sync [OF assms(1,2)] by (simp add: wf_ordered_def dom_dict_of_enumerate)
  moreover have "dom (os_values s) = set (os_ordered_values s)"
    using assms(1) by (simp add: wf_ordered_def dom_dict_of_enumerate)
  ultimately have "item \<notin> dom (os_values (sync own s))"
    using assms(2,3) by (simp add: sync_set)
  then have "os_values (sync own s) item = None" by blast
  then show ?thesis by (simp add: ord_def Let_def)
qed

lemma nextw_wf:
  assumes "wf_ordered s" and "reorders own" and "ord own s item = (Inr p, s1)"
  shows "nextw own s item step =
           (Inr (element_at own s ((p + step - 1) mod os_len s + 1)), sync own s)"
proof -
  from assms have s1: "s1 = sync own s" and p: "1 \<le> p" "p \<le> os_len s"
    using ord_wf [OF assms(1,2)] by simp_all
  let ?m = "(p + step - 1) mod os_len s"
  have pos: "0 < os_len s" using p by linarith
  then have m: "0 \<le> ?m" "?m < os_len s" by simp_all
  have len: "os_len (sync own s) = os_len s" by (rule sync_len [OF assms(1,2)])
  have "nextw own s item step = dunder_getitem own (sync own s) (?m + 1)"
    using assms(3) s1 pos by (simp add: nextw_def py_mod_def len)
  also have "\<dots> = dunder_getitem own s (?m + 1)" by (rule getitem_sync)
  also have "\<dots> = (Inr (element_at own s (?m + 1)), sync own s)"
    using m by (simp add: getitem_wf [OF assms(1,2)])
  finally show ?thesis .
qed

lemma ord_element_at:
  assumes "wf_ordered s" and "reorders own" and "1 \<le> q" and "q \<le> os_len s"
  shows "ord own s (element_at own s q) = (Inr q, sync own s)"
  using assms ord_wf [OF assms(1,2), of "element_at own s q" q "sync own s"] by simp

lemma reorders_insertion_owner: "reorders insertion_owner"
  by (simp add: reorders_def insertion_owner_def)

lemma wf_ordered_abc: "wf_ordered abc"
  by (simp add: wf_ordered_def abc_def dict_of_enumerate_def numeral_2_eq_2)

lemma sync_abc: "sync insertion_owner abc = abc\<lparr>os_is_sorted := Some InsertionOrder\<rparr>"
  by (simp add: sync_def do_sort_def abc_def insertion_owner_def DataOK_def InsertionOrder_def
      SortNeeded_def)

lemma os_len_abc: "os_len abc = 3"
  by (simp add: os_len_def abc_def)

lemma abc_built:
  "abc = fst (snd (os_add (fst (snd (os_add (fst (snd (os_add OrderedSetData_init (PStr ''a''))))
                 (PStr ''b'')))) (PStr ''c'')))"
  by (simp add: os_add_def OrderedSetData_init_def abc_def domain_rejects_def Any_def Let_def numeral_2_eq_2)

lemma restricted_built:
  "restricted =
     fst (snd (fs_add (FiniteSetData_init (Some (\<lambda>v. v \<in> set [flat_triple]))) flat_triple))"
  by (simp add: fs_add_def FiniteSetData_init_def restricted_def domain_rejects_def Let_def
      py_set_add_def flat_triple_def)

lemma first_last_wf:
  assumes "wf_ordered s" and "reorders own" and "0 < os_len s"
  shows "first own s = (Inr (element_at own s 1), sync own s)"
    and "last_item own s = (Inr (element_at own s (os_len s)), sync own s)"
  using assms(3) by (simp_all add: first_def last_item_def getitem_wf [OF assms(1,2)])

lemma next_item_wf:
  assumes "wf_ordered s" and "reorders own" and "ord own s item = (Inr p, s1)"
  shows "next_item own s item step = dunder_getitem own s (p + step)"
proof -
  from assms have s1: "s1 = sync own s"
    using ord_wf [OF assms(1,2)] by simp
  then show ?thesis
    using assms(3) by (simp add: next_item_def getitem_sync)
qed

lemma next_item_from_end:
  assumes "wf_ordered s" and "reorders own" and "ord own s item = (Inr p, s1)"
    and "p + step < 0" and "- os_len s \<le> p + step"
  shows "next_item own s item step =
           (Inr (rev (os_ordered_values (sync own s)) ! nat (- (p + step) - 1)), sync own s)"
  using assms(4,5) by (simp add: next_item_wf [OF assms(1,2,3)] getitem_wf [OF assms(1,2)])

section \<open>The claims\<close>

text \<open>
  C1. The claim reads: for a finite set \<open>S\<close> and an infinite set \<open>T\<close>, \<open>S.issubset(T)\<close>
  returns false. The code returns nothing there: \<^verbatim>\<open>self.is_finite()\<close> answers \<^verbatim>\<open>False\<close> for
  a \<^verbatim>\<open>_FiniteSetData\<close> and an \<^verbatim>\<open>_OrderedSetData\<close> too, so the call falls through to the branch
  for two infinite sets and \<^verbatim>\<open>self.ranges()\<close> raises an AttributeError, for every finite
  set, as for \<open>{-1}\<close> against the range \<open>[0, \<infinity>)\<close>, which does not hold \<open>-1\<close>.
\<close>

theorem issubset_finite_infinite_raises:
  "issubset ops own (FiniteSet d) (InfiniteSet rs) = Inl AttributeError \<and>
   issubset ops own (OrderedSet s) (InfiniteSet rs) = Inl AttributeError \<and>
   issubset interval_ops insertion_owner
     (FiniteSet \<lparr>fs_values = [PInt (- 1)], fs_domain = Some Any\<rparr>)
     (InfiniteSet [(Some 0, None)]) = Inl AttributeError \<and>
   \<not> contains interval_ops (InfiniteSet [(Some 0, None)]) (PInt (- 1))"
  by (simp add: issubset_def interval_ops_def interval_contains_def above_def below_def)

text \<open>
  C2. The claim reads: for infinite \<open>S\<close> and \<open>T\<close>, \<open>S.isdisjoint(T)\<close> returns a boolean,
  true iff every pair of ranges is disjoint. The last branch of the code computes that
  boolean and does not return it: the result is \<^verbatim>\<open>None\<close> for every pair of infinite sets,
  also for the disjoint ranges \<open>[0, \<infinity>)\<close> and \<open>(-\<infinity>, -5]\<close>.
\<close>

theorem isdisjoint_infinite_returns_None:
  "isdisjoint ops own (InfiniteSet rs) (InfiniteSet ss) = Inr None \<and>
   all_disjoint interval_ops [(Some 0, None)] [(None, Some (- 5))]"
  by (simp add: isdisjoint_def all_disjoint_def interval_ops_def interval_isdisjoint_def)

text \<open>
  C3. The claim reads: for all sets \<open>A\<close> and \<open>B\<close>, \<open>A.union(B)\<close> is a composed set, built
  by folding left, whose \<^verbatim>\<open>is_finite()\<close> is true iff both \<open>A\<close> and \<open>B\<close> are finite. The fold
  is as claimed, and the union's \<^verbatim>\<open>is_finite()\<close> follows the \<^verbatim>\<open>is_finite()\<close> of the operands;
  but \<^verbatim>\<open>is_finite()\<close> answers \<^verbatim>\<open>False\<close> on a \<^verbatim>\<open>_FiniteSetData\<close> and on an \<^verbatim>\<open>_OrderedSetData\<close>,
  so the union of two finite sets is reported as not finite.
\<close>

theorem union_of_finite_sets_not_finite:
  "set_union (Base (FiniteSet d)) [Base (FiniteSet e)] =
     SetUnion (Base (FiniteSet d)) (Base (FiniteSet e)) \<and>
   composed_is_finite (set_union (Base (FiniteSet d)) [Base (FiniteSet e)]) = False \<and>
   composed_is_finite (set_union (Base (OrderedSet s)) [Base (FiniteSet e)]) = False \<and>
   is_finite (FiniteSet d) = False \<and> is_finite (OrderedSet s) = False"
  by simp

text \<open>
  What holds of \<open>union\<close>: it folds to the left, and the result's \<^verbatim>\<open>is_finite()\<close> is true iff
  the \<^verbatim>\<open>is_finite()\<close> of every operand is.
\<close>

lemma union_propagates_is_finite:
  "set_union A [B] = SetUnion A B \<and>
   composed_is_finite (set_union A [B]) = (composed_is_finite A \<and> composed_is_finite B) \<and>
   set_union A Bs = foldl SetUnion A Bs \<and>
   composed_is_finite (set_union A Bs) = (composed_is_finite A \<and> list_all composed_is_finite Bs)"
  using set_union_foldl [of A Bs] set_union_finite [of A Bs] by simp

text \<open>
  C4, as amended. The claim reads: \<open>length()\<close> of an InfiniteSet fails with an
  UnsupportedOperation error. The method \<^verbatim>\<open>__len__\<close> of an infinite set raises nothing: it
  returns \<^verbatim>\<open>None\<close>; it is Python's built-in \<^verbatim>\<open>len\<close> that rejects this result, with a
  TypeError of its own.
\<close>

theorem len_infinite_returns_None:
  "dunder_len (InfiniteSet rs) = Inr None \<and> builtin_len (InfiniteSet rs) = Inl TypeError"
  by (simp add: builtin_len_def)

text \<open>\<^verbatim>\<open>__len__\<close> of the infinite set with the range \<open>[0, \<infinity>)\<close> returns \<^verbatim>\<open>None\<close>.\<close>

theorem len_unsupported_counterexample:
  "dunder_len (InfiniteSet [(Some (0::int), None :: int option)]) = Inr None"
  by simp

text \<open>
  C5. The claim reads: \<open>next(item, step)\<close> and \<open>prev(item, step) = next(item, -step)\<close> fail
  with IndexOutOfRange whenever the target position \<open>p + step\<close> is outside \<open>[1, N]\<close>, and
  the docstring of \<^verbatim>\<open>prev\<close> promises an IndexError when "the previous element is before the
  beginning of the set". The code passes \<open>p + step\<close> to \<^verbatim>\<open>__getitem__\<close>, which reads a
  negative index from the end: in the set built from "a", "b", "c", \<open>prev("a", 2)\<close> has
  the target \<open>-1\<close> and returns "c", and \<open>next("b", -5)\<close> has the target \<open>-3\<close> and returns "a".
\<close>

theorem prev_before_first_returns_last:
  "ord insertion_owner abc (PStr ''a'') = (Inr 1, sync insertion_owner abc) \<and>
   prev_item insertion_owner abc (PStr ''a'') 2 = (Inr (PStr ''c''), sync insertion_owner abc) \<and>
   next_item insertion_owner abc (PStr ''a'') (- 2) = (Inr (PStr ''c''), sync insertion_owner abc) \<and>
   next_item insertion_owner abc (PStr ''b'') (- 5) = (Inr (PStr ''a''), sync insertion_owner abc)"
proof -
  have a: "ord insertion_owner abc (PStr ''a'') = (Inr 1, sync insertion_owner abc)"
    by (simp add: ord_def sync_abc) (simp add: abc_def)
  have b: "ord insertion_owner abc (PStr ''b'') = (Inr 2, sync insertion_owner abc)"
    by (simp add: ord_def sync_abc) (simp add: abc_def)
  have g1: "dunder_getitem insertion_owner abc (- 1) = (Inr (PStr ''c''), sync insertion_owner abc)"
    by (simp add: dunder_getitem_def Let_def sync_abc os_len_def list_getitem_def)
       (simp add: abc_def)
  have g3: "dunder_getitem insertion_owner abc (- 3) = (Inr (PStr ''a''), sync insertion_owner abc)"
    by (simp add: dunder_getitem_def Let_def sync_abc os_len_def list_getitem_def)
       (simp add: abc_def)
  show ?thesis
    using a b g1 g3 by (simp add: prev_item_def next_item_def getitem_sync)
qed

text \<open>
  C6. Positional access to a well-formed ordered set of length \<open>N\<close> is 1-based: for
  \<open>1 \<le> i \<le> N\<close> it returns the \<open>i\<close>-th element and for \<open>i > N\<close> it fails "past the last
  element"; for \<open>i < 0\<close> with \<open>|i| \<le> N\<close> it returns the \<open>|i|\<close>-th element from the end and
  for \<open>|i| > N\<close> it fails "before the first element"; \<open>i = 0\<close> fails with the
  invalid-index error. The set is brought into order first, and that state is left.
\<close>

theorem getitem_one_based:
  assumes "wf_ordered s" and "reorders own"
  shows "os_len s = int (length (os_ordered_values (sync own s))) \<and>
    (1 \<le> i \<and> i \<le> os_len s \<longrightarrow>
       dunder_getitem own s i = (Inr (element_at own s i), sync own s)) \<and>
    (os_len s < i \<longrightarrow> dunder_getitem own s i = (Inl (IndexError PastLast), sync own s)) \<and>
    (i < 0 \<and> - i \<le> os_len s \<longrightarrow>
       dunder_getitem own s i =
         (Inr (rev (os_ordered_values (sync own s)) ! nat (- i - 1)), sync own s)) \<and>
    (i < - os_len s \<longrightarrow> dunder_getitem own s i = (Inl (IndexError BeforeFirst), sync own s)) \<and>
    (i = 0 \<longrightarrow> dunder_getitem own s i = (Inl (IndexError InvalidIndex), sync own s))"
proof -
  have g: "dunder_getitem own s i =
           (if 1 \<le> i then
              (if os_len s < i then Inl (IndexError PastLast) else Inr (element_at own s i))
            else if i < 0 then
              (if i < - os_len s then Inl (IndexError BeforeFirst)
               else Inr (rev (os_ordered_values (sync own s)) ! nat (- i - 1)))
            else Inl (IndexError InvalidIndex),
            sync own s)"
    by (rule getitem_wf [OF assms])
  have n: "0 \<le> os_len s" by (simp add: os_len_def)
  have "os_len s = int (length (os_ordered_values (sync own s)))"
    by (rule len_resolved [OF assms])
  moreover have "1 \<le> i \<and> i \<le> os_len s \<longrightarrow>
       dunder_getitem own s i = (Inr (element_at own s i), sync own s)"
    unfolding g by simp
  moreover have "os_len s < i \<longrightarrow>
       dunder_getitem own s i = (Inl (IndexError PastLast), sync own s)"
    unfolding g using n by simp
  moreover have "i < 0 \<and> - i \<le> os_len s \<longrightarrow>
       dunder_getitem own s i =
         (Inr (rev (os_ordered_values (sync own s)) ! nat (- i - 1)), sync own s)"
    unfolding g by simp
  moreover have "i < - os_len s \<longrightarrow>
       dunder_getitem own s i = (Inl (IndexError BeforeFirst), sync own s)"
    unfolding g using n by simp
  moreover have "i = 0 \<longrightarrow>
       dunder_getitem own s i = (Inl (IndexError InvalidIndex), sync own s)"
    unfolding g by simp
  ultimately show ?thesis by blast
qed

theorem getitem_one_based_witness:
  "dunder_getitem insertion_owner abc 1 = (Inr (PStr ''a''), sync insertion_owner abc) \<and>
   dunder_getitem insertion_owner abc 3 = (Inr (PStr ''c''), sync insertion_owner abc) \<and>
   dunder_getitem insertion_owner abc 4 = (Inl (IndexError PastLast), sync insertion_owner abc) \<and>
   dunder_getitem insertion_owner abc (- 1) = (Inr (PStr ''c''), sync insertion_owner abc) \<and>
   dunder_getitem insertion_owner abc (- 4) =
     (Inl (IndexError BeforeFirst), sync insertion_owner abc) \<and>
   dunder_getitem insertion_owner abc 0 =
     (Inl (IndexError InvalidIndex), sync insertion_owner abc)"
  using getitem_one_based [OF wf_ordered_abc reorders_insertion_owner, of 1]
    getitem_one_based [OF wf_ordered_abc reorders_insertion_owner, of 3]
    getitem_one_based [OF wf_ordered_abc reorders_insertion_owner, of 4]
    getitem_one_based [OF wf_ordered_abc reorders_insertion_owner, of "- 1"]
    getitem_one_based [OF wf_ordered_abc reorders_insertion_owner, of "- 4"]
    getitem_one_based [OF wf_ordered_abc reorders_insertion_owner, of 0]
  by (simp add: os_len_abc element_at_def sync_abc) (simp add: abc_def)

text \<open>
  C7, as amended. The claim reads: two infinite sets are equal iff their ranges are equal
  as sets of ranges, in any order. The code compares the two tuples of ranges: they are
  equal iff they have the same length and agree position by position (by identity or by
  the ranges' own \<^verbatim>\<open>==\<close>); nothing is merged or normalised.
\<close>

theorem eq_infinite_positionwise:
  "dunder_eq ops own (InfiniteSet rs) (InfiniteSet ss) =
     Inr (list_all2 (\<lambda>r s. r = s \<or> range_eq ops r s) rs ss)"
proof (cases "rs = ss")
  case True
  then show ?thesis
    using tuple_eq_refl [of ops ss] by (simp add: dunder_eq_def tuple_eq_list_all2)
next
  case False
  then show ?thesis by (simp add: dunder_eq_def tuple_eq_list_all2)
qed

text \<open>
  The ranges \<open>[0, \<infinity>)\<close> and \<open>(-\<infinity>, -5]\<close>, listed in the two orders: the same set of
  ranges, and the code answers false.
\<close>

theorem eq_order_insensitive_counterexample:
  "set [(Some 0, None), (None, Some (-5))] = set [(None, Some (-5)), (Some (0::int), None :: int option)] \<and>
   dunder_eq interval_ops insertion_owner
     (InfiniteSet [(Some 0, None), (None, Some (-5))])
     (InfiniteSet [(None, Some (-5)), (Some 0, None)]) = Inr False"
  by (auto simp add: dunder_eq_def interval_ops_def)

text \<open>
  C8, as amended. The claim reads: \<open>add(v)\<close> of a value whose flattened form is already an
  element does not raise, logs a warning and leaves the whole state as it is. The domain
  is checked first, on the value as given: when the domain accepts \<open>v\<close> (or there is
  none), \<open>add(v)\<close> returns, logs the warning for the flattened value, and the state of a
  finite set and of an ordered set (sequence, positions, order state, domain) is the same.
\<close>

theorem add_existing_is_noop:
  "(\<not> domain_rejects (fs_domain f) v \<and> flatten_tuple v \<in> set (fs_values f) \<longrightarrow>
      fs_add f v = (Inr (), f, [AlreadyExists (flatten_tuple v)])) \<and>
   (\<not> domain_rejects (os_domain s) v \<and> flatten_tuple v \<in> dom (os_values s) \<longrightarrow>
      os_add s v = (Inr (), s, [AlreadyExists (flatten_tuple v)]))"
  by (simp add: fs_add_def os_add_def Let_def py_set_add_def)

theorem add_existing_is_noop_witness:
  "fs_add \<lparr>fs_values = [flat_triple], fs_domain = Some Any\<rparr> nested_triple =
     (Inr (), \<lparr>fs_values = [flat_triple], fs_domain = Some Any\<rparr>, [AlreadyExists flat_triple]) \<and>
   os_add abc (PStr ''b'') = (Inr (), abc, [AlreadyExists (PStr ''b'')])"
  using add_existing_is_noop [of "\<lparr>fs_values = [flat_triple], fs_domain = Some Any\<rparr>"
      nested_triple abc]
    add_existing_is_noop [of "\<lparr>fs_values = [flat_triple], fs_domain = Some Any\<rparr>"
      "PStr ''b''" abc]
  by (simp add: domain_rejects_def Any_def flat_triple_def nested_triple_def abc_def)

text \<open>
  The set \<open>restricted\<close> holds \<^verbatim>\<open>(1, 2, 3)\<close>, and its domain holds that tuple only:
  \<^verbatim>\<open>add((1, (2, 3)))\<close> raises the ValueError of the domain check, although the flattened
  value is an element.
\<close>

theorem add_existing_raises_counterexample:
  "flatten_tuple nested_triple \<in> set (fs_values restricted) \<and>
   fs_add restricted nested_triple = (Inl (ValueError nested_triple), restricted, [])"
  by (simp add: fs_add_def restricted_def domain_rejects_def flat_triple_def nested_triple_def)

text \<open>
  C9. For a finite set and for an ordered set, \<open>add(v)\<close> of a value that the assigned domain
  does not contain fails with the ValueError of the domain check, logs nothing, and leaves
  the state of the set as it was.
\<close>

theorem add_outside_domain_fails:
  "(fs_domain f = Some d \<and> \<not> d v \<longrightarrow> fs_add f v = (Inl (ValueError v), f, [])) \<and>
   (os_domain s = Some d \<and> \<not> d v \<longrightarrow> os_add s v = (Inl (ValueError v), s, []))"
  by (simp add: fs_add_def os_add_def domain_rejects_def)

theorem add_outside_domain_fails_witness:
  "fs_add restricted (PInt 7) = (Inl (ValueError (PInt 7)), restricted, []) \<and>
   os_add (abc\<lparr>os_domain := Some (\<lambda>v. v \<in> set [flat_triple])\<rparr>) (PInt 7) =
     (Inl (ValueError (PInt 7)), abc\<lparr>os_domain := Some (\<lambda>v. v \<in> set [flat_triple])\<rparr>, [])"
  using add_outside_domain_fails [of restricted "\<lambda>v. v \<in> set [flat_triple]" "PInt 7"
      "abc\<lparr>os_domain := Some (\<lambda>v. v \<in> set [flat_triple])\<rparr>"]
  by (simp add: restricted_def flat_triple_def)

text \<open>
  C10. In a well-formed ordered set of length \<open>N\<close>, for an item at the 1-based position
  \<open>p\<close> (the value of \<open>ord\<close>, with the item at that position), \<open>nextw(item, step)\<close> returns
  the element at position \<open>((p + step - 1) mod N) + 1\<close>; \<open>prevw(item, step)\<close> is
  \<open>nextw(item, -step)\<close>; an absent item fails with the "item not in Set" error of \<open>ord\<close>;
  and in a non-empty set \<open>nextw(last) = first\<close> and \<open>prevw(first) = last\<close>.
\<close>

theorem nextw_wraparound:
  assumes "wf_ordered s" and "reorders own"
  shows
    "(ord own s item = (Inr p, s1) \<longrightarrow>
        s1 = sync own s \<and> 1 \<le> p \<and> p \<le> os_len s \<and> element_at own s p = item \<and>
        nextw own s item step =
          (Inr (element_at own s ((p + step - 1) mod os_len s + 1)), sync own s)) \<and>
     prevw own s item step = nextw own s item (- step) \<and>
     (item \<notin> dom (os_values s) \<longrightarrow>
        nextw own s item step = (Inl (IndexError (ItemNotInSet item)), sync own s)) \<and>
     (0 < os_len s \<longrightarrow>
        (\<exists>f l. first own s = (Inr f, sync own s) \<and> last_item own s = (Inr l, sync own s) \<and>
           nextw own s l 1 = (Inr f, sync own s) \<and> prevw own s f 1 = (Inr l, sync own s)))"
proof -
  have a: "ord own s item = (Inr p, s1) \<longrightarrow>
        s1 = sync own s \<and> 1 \<le> p \<and> p \<le> os_len s \<and> element_at own s p = item \<and>
        nextw own s item step =
          (Inr (element_at own s ((p + step - 1) mod os_len s + 1)), sync own s)"
  proof
    assume o: "ord own s item = (Inr p, s1)"
    then have "s1 = sync own s \<and> 1 \<le> p \<and> p \<le> os_len s \<and> element_at own s p = item"
      by (simp only: ord_wf [OF assms])
    moreover have "nextw own s item step =
          (Inr (element_at own s ((p + step - 1) mod os_len s + 1)), sync own s)"
      by (rule nextw_wf [OF assms o])
    ultimately show "s1 = sync own s \<and> 1 \<le> p \<and> p \<le> os_len s \<and> element_at own s p = item \<and>
        nextw own s item step =
          (Inr (element_at own s ((p + step - 1) mod os_len s + 1)), sync own s)"
      by simp
  qed
  have b: "prevw own s item step = nextw own s item (- step)"
    by (simp add: prevw_def)
  have c: "item \<notin> dom (os_values s) \<longrightarrow>
        nextw own s item step = (Inl (IndexError (ItemNotInSet item)), sync own s)"
  proof
    assume "item \<notin> dom (os_values s)"
    then have "ord own s item = (Inl (IndexError (ItemNotInSet item)), sync own s)"
      by (rule ord_absent [OF assms])
    then show "nextw own s item step = (Inl (IndexError (ItemNotInSet item)), sync own s)"
      by (simp add: nextw_def)
  qed
  have d: "0 < os_len s \<longrightarrow>
        (\<exists>f l. first own s = (Inr f, sync own s) \<and> last_item own s = (Inr l, sync own s) \<and>
           nextw own s l 1 = (Inr f, sync own s) \<and> prevw own s f 1 = (Inr l, sync own s))"
  proof
    assume pos: "0 < os_len s"
    let ?N = "os_len s"
    have ol: "ord own s (element_at own s ?N) = (Inr ?N, sync own s)"
      using pos by (simp add: ord_element_at [OF assms])
    have of: "ord own s (element_at own s 1) = (Inr 1, sync own s)"
      using pos by (simp add: ord_element_at [OF assms])
    have "nextw own s (element_at own s ?N) 1 =
            (Inr (element_at own s ((?N + 1 - 1) mod ?N + 1)), sync own s)"
      by (rule nextw_wf [OF assms ol])
    then have n: "nextw own s (element_at own s ?N) 1 = (Inr (element_at own s 1), sync own s)"
      by simp
    have "nextw own s (element_at own s 1) (- 1) =
            (Inr (element_at own s ((1 + (- 1) - 1) mod ?N + 1)), sync own s)"
      by (rule nextw_wf [OF assms of])
    moreover have "(1 + (- 1) - 1) mod ?N + 1 = ?N"
    proof -
      have "(- 1) mod ?N = ?N - 1" using pos by (simp add: zmod_minus1)
      then show ?thesis by simp
    qed
    ultimately have p: "prevw own s (element_at own s 1) 1 =
            (Inr (element_at own s ?N), sync own s)"
      by (simp add: prevw_def)
    show "\<exists>f l. first own s = (Inr f, sync own s) \<and> last_item own s = (Inr l, sync own s) \<and>
           nextw own s l 1 = (Inr f, sync own s) \<and> prevw own s f 1 = (Inr l, sync own s)"
      using first_last_wf [OF assms pos] n p by blast
  qed
  from a b c d show ?thesis by blast
qed

theorem nextw_wraparound_witness:
  "nextw insertion_owner abc (PStr ''c'') 1 = (Inr (PStr ''a''), sync insertion_owner abc) \<and>
   prevw insertion_owner abc (PStr ''a'') 1 = (Inr (PStr ''c''), sync insertion_owner abc) \<and>
   nextw insertion_owner abc (PStr ''b'') 5 = (Inr (PStr ''a''), sync insertion_owner abc) \<and>
   nextw insertion_owner abc (PStr ''z'') 1 =
     (Inl (IndexError (ItemNotInSet (PStr ''z''))), sync insertion_owner abc)"
proof -
  have c: "ord insertion_owner abc (PStr ''c'') = (Inr 3, sync insertion_owner abc)"
    by (simp add: ord_def sync_abc) (simp add: abc_def)
  have a: "ord insertion_owner abc (PStr ''a'') = (Inr 1, sync insertion_owner abc)"
    by (simp add: ord_def sync_abc) (simp add: abc_def)
  have b: "ord insertion_owner abc (PStr ''b'') = (Inr 2, sync insertion_owner abc)"
    by (simp add: ord_def sync_abc) (simp add: abc_def)
  have z: "PStr ''z'' \<notin> dom (os_values abc)"
    by (simp add: abc_def)
  show ?thesis
    using nextw_wraparound [OF wf_ordered_abc reorders_insertion_owner,
        of "PStr ''c''" 3 "sync insertion_owner abc" 1]
      nextw_wraparound [OF wf_ordered_abc reorders_insertion_owner,
        of "PStr ''a''" 1 "sync insertion_owner abc" "- 1"]
      nextw_wraparound [OF wf_ordered_abc reorders_insertion_owner,
        of "PStr ''a''" 1 "sync insertion_owner abc" 1]
      nextw_wraparound [OF wf_ordered_abc reorders_insertion_owner,
        of "PStr ''b''" 2 "sync insertion_owner abc" 5]
      nextw_wraparound [OF wf_ordered_abc reorders_insertion_owner,
        of "PStr ''z''" 1 "sync insertion_owner abc" 1]
      a b c z
    by (simp add: os_len_abc element_at_def sync_abc)
qed

end
